theory Spec2Isabelle
  imports Complex_Main
begin

section \<open>Values exchanged with the generation service and the HTTP layer\<close>

text \<open>
  \<open>json.loads\<close> yields \<open>None\<close>, booleans, integers, floats (among them \<open>NaN\<close> and the
  infinities, which the parser accepts), strings, lists and dictionaries. A dictionary is an
  association list in insertion order; \<open>map_of\<close> reads it.
\<close>

datatype pyfloat = Finite real | NaN | PosInf | NegInf

datatype json =
    JNull
  | JBool bool
  | JInt int
  | JFloat pyfloat
  | JStr string
  | JArr "json list"
  | JObj "(string \<times> json) list"

text \<open>The exceptions the handlers can meet, and what an \<open>HTTPException\<close> carries.\<close>

datatype pyexn =
    TypeError
  | AttributeError
  | KeyError
  | ValueError
  | RuntimeError string
  | APIError
  | ProviderError string

datatype detail = Detail string | DetailJson json | DetailOf pyexn

datatype raised = Exc pyexn | Http nat detail

text \<open>
  The builtins whose full behaviour is not written out: \<open>repr\<close> of a float, a list or a
  dictionary (what \<open>str\<close> returns for them) and the integer parser behind \<open>int(str)\<close>.
\<close>

record builtins =
  py_repr :: "json \<Rightarrow> string"
  py_int_of_str :: "string \<Rightarrow> int option"

text \<open>Sequencing of steps that may raise: the first exception ends the sequence.\<close>

definition and_then :: "'e + 'a \<Rightarrow> ('a \<Rightarrow> 'e + 'b) \<Rightarrow> 'e + 'b" where
  "and_then m f = (case m of Inl e \<Rightarrow> Inl e | Inr x \<Rightarrow> f x)"

subsection \<open>Strings\<close>

fun starts_with :: "string \<Rightarrow> string \<Rightarrow> bool" where
  "starts_with [] s = True"
| "starts_with (p # ps) [] = False"
| "starts_with (p # ps) (c # cs) = (p = c \<and> starts_with ps cs)"

text \<open>\<open>needle in haystack\<close> on two strings.\<close>

fun str_contains :: "string \<Rightarrow> string \<Rightarrow> bool" where
  "str_contains p [] = (p = [])"
| "str_contains p (c # cs) = (starts_with p (c # cs) \<or> str_contains p cs)"

function dec_nat :: "nat \<Rightarrow> string" where
  "dec_nat n = (if n < 10 then [''0123456789'' ! n]
                else dec_nat (n div 10) @ [''0123456789'' ! (n mod 10)])"
  by pat_completeness auto
termination
  by (relation "measure (\<lambda>n. n)") auto

declare dec_nat.simps [simp del]

definition dec_int :: "int \<Rightarrow> string" where
  "dec_int i = (if i < 0 then CHR ''-'' # dec_nat (nat (- i)) else dec_nat (nat i))"

subsection \<open>The Python operations the handlers apply to a parsed value\<close>

text \<open>\<open>str(x)\<close>.\<close>

definition py_str :: "builtins \<Rightarrow> json \<Rightarrow> string" where
  "py_str bi x =
     (case x of
        JStr s \<Rightarrow> s
      | JNull \<Rightarrow> ''None''
      | JBool b \<Rightarrow> (if b then ''True'' else ''False'')
      | JInt i \<Rightarrow> dec_int i
      | _ \<Rightarrow> py_repr bi x)"

text \<open>\<open>int(x)\<close>: a float is truncated towards zero.\<close>

definition py_int :: "builtins \<Rightarrow> json \<Rightarrow> pyexn + int" where
  "py_int bi x =
     (case x of
        JInt i \<Rightarrow> Inr i
      | JBool b \<Rightarrow> Inr (if b then 1 else 0)
      | JFloat f \<Rightarrow>
          (case f of
             Finite r \<Rightarrow> Inr (if 0 \<le> r then \<lfloor>r\<rfloor> else \<lceil>r\<rceil>)
           | _ \<Rightarrow> Inl ValueError)
      | JStr s \<Rightarrow>
          (case py_int_of_str bi s of None \<Rightarrow> Inl ValueError | Some i \<Rightarrow> Inr i)
      | _ \<Rightarrow> Inl TypeError)"

text \<open>\<open>k in x\<close> for a string \<open>k\<close>.\<close>

definition py_in :: "string \<Rightarrow> json \<Rightarrow> pyexn + bool" where
  "py_in k x =
     (case x of
        JObj kvs \<Rightarrow> Inr (k \<in> set (map fst kvs))
      | JArr xs \<Rightarrow> Inr (JStr k \<in> set xs)
      | JStr s \<Rightarrow> Inr (str_contains k s)
      | _ \<Rightarrow> Inl TypeError)"

text \<open>\<open>x[k]\<close> for a string \<open>k\<close>.\<close>

definition py_index :: "json \<Rightarrow> string \<Rightarrow> pyexn + json" where
  "py_index x k =
     (case x of
        JObj kvs \<Rightarrow> (case map_of kvs k of None \<Rightarrow> Inl KeyError | Some v \<Rightarrow> Inr v)
      | _ \<Rightarrow> Inl TypeError)"

text \<open>\<open>x.get(k, d)\<close>: only a dictionary has the method.\<close>

definition py_get :: "json \<Rightarrow> string \<Rightarrow> json \<Rightarrow> pyexn + json" where
  "py_get x k d =
     (case x of
        JObj kvs \<Rightarrow> Inr (case map_of kvs k of None \<Rightarrow> d | Some v \<Rightarrow> v)
      | _ \<Rightarrow> Inl AttributeError)"

text \<open>\<open>d[k] = v\<close> on a dictionary: an existing key keeps its place.\<close>

fun dict_set :: "string \<Rightarrow> json \<Rightarrow> (string \<times> json) list \<Rightarrow> (string \<times> json) list" where
  "dict_set k v [] = [(k, v)]"
| "dict_set k v ((k', v') # kvs) =
     (if k' = k then (k, v) # kvs else (k', v') # dict_set k v kvs)"

definition py_setitem :: "json \<Rightarrow> string \<Rightarrow> json \<Rightarrow> pyexn + json" where
  "py_setitem x k v =
     (case x of
        JObj kvs \<Rightarrow> Inr (JObj (dict_set k v kvs))
      | _ \<Rightarrow> Inl TypeError)"

text \<open>\<open>x.items()\<close>.\<close>

definition py_items :: "json \<Rightarrow> pyexn + (string \<times> json) list" where
  "py_items x = (case x of JObj kvs \<Rightarrow> Inr kvs | _ \<Rightarrow> Inl AttributeError)"

text \<open>
  What \<open>for task in x\<close> runs over: the elements of a list, the characters of a string, the
  keys of a dictionary; anything else is not iterable.
\<close>

definition py_iter :: "json \<Rightarrow> pyexn + json list" where
  "py_iter x =
     (case x of
        JArr xs \<Rightarrow> Inr xs
      | JStr s \<Rightarrow> Inr (map (\<lambda>c. JStr [c]) s)
      | JObj kvs \<Rightarrow> Inr (map (\<lambda>kv. JStr (fst kv)) kvs)
      | _ \<Rightarrow> Inl TypeError)"

section \<open>The persistence store\<close>

record analysis_fields =
  user_id :: string
  target_role :: string
  eligible_roles :: json
  readiness_score :: int
  skills :: json
  required_skills :: json
  missing_skills :: json
  salary_tiers :: json
  preparation_plans :: json

record analysis_row =
  a_id :: string
  a_created_at :: nat
  a_fields :: analysis_fields

text \<open>
  A row of \<open>roadmap_progress\<close>. \<open>p_updated_at\<close> is \<open>None\<close> where the writer sent no
  \<open>updated_at\<close> and the time at which the store evaluated \<open>now()\<close> otherwise.
\<close>

record progress_row =
  p_user_id :: string
  p_analysis_id :: string
  p_day_label :: string
  p_duration_type :: string
  p_is_completed :: bool
  p_skill_score :: int
  p_updated_at :: "nat option"

record store =
  analyses :: "analysis_row list"
  roadmap_progress :: "progress_row list"
  next_id :: nat

text \<open>The conflict key \<open>user_id,analysis_id,day_label,duration_type\<close> of both upserts.\<close>

definition progress_key :: "progress_row \<Rightarrow> string \<times> string \<times> string \<times> string" where
  "progress_key r = (p_user_id r, p_analysis_id r, p_day_label r, p_duration_type r)"

text \<open>
  Modelled from the spec: the managed store behind the \<open>supabase\<close> client is not part of
  the repository. Section 4.3 of the specification gives its operations: insert one analysis
  row, returning the generated id; upsert progress rows keyed by (user, analysis, day label,
  duration) with conflict policy overwrite; filtered select; filtered delete. The generated
  id is the decimal numeral of a counter, \<open>created_at\<close> is assigned by the server.
\<close>

definition insert_analysis :: "nat \<Rightarrow> analysis_fields \<Rightarrow> store \<Rightarrow> analysis_row \<times> store" where
  "insert_analysis now f s =
     (let row = \<lparr>a_id = dec_nat (next_id s), a_created_at = now, a_fields = f\<rparr>
      in (row, s\<lparr>analyses := analyses s @ [row], next_id := Suc (next_id s)\<rparr>))"

text \<open>
  Modelled from the spec: upsert of one row under the conflict key. A row with the same key
  is overwritten where it stands, otherwise the row is added.
\<close>

definition upsert_row :: "progress_row list \<Rightarrow> progress_row \<Rightarrow> progress_row list" where
  "upsert_row tbl r =
     (if progress_key r \<in> set (map progress_key tbl)
      then map (\<lambda>x. if progress_key x = progress_key r then r else x) tbl
      else tbl @ [r])"

text \<open>Modelled from the spec: the bulk upsert applies the rows in the order given.\<close>

definition upsert_rows :: "progress_row list \<Rightarrow> progress_row list \<Rightarrow> progress_row list" where
  "upsert_rows tbl rows = foldl upsert_row tbl rows"

text \<open>Modelled from the spec: select by analysis id and user id.\<close>

definition select_progress :: "store \<Rightarrow> string \<Rightarrow> string \<Rightarrow> progress_row list" where
  "select_progress s aid uid =
     filter (\<lambda>r. p_analysis_id r = aid \<and> p_user_id r = uid) (roadmap_progress s)"

text \<open>Modelled from the spec: select by user id, newest first.\<close>

definition select_analyses :: "store \<Rightarrow> string \<Rightarrow> analysis_row list" where
  "select_analyses s uid =
     sort_key (\<lambda>r. - int (a_created_at r))
       (filter (\<lambda>r. user_id (a_fields r) = uid) (analyses s))"

text \<open>Modelled from the spec: delete by record id and user id.\<close>

definition delete_analysis :: "store \<Rightarrow> string \<Rightarrow> string \<Rightarrow> store" where
  "delete_analysis s rid uid =
     s\<lparr>analyses := filter (\<lambda>r. \<not> (a_id r = rid \<and> user_id (a_fields r) = uid)) (analyses s)\<rparr>"

text \<open>
  How the store answers one request: it carries the request out, it makes the client raise,
  or it answers with no rows. In the last two cases it changes nothing.
\<close>

datatype db_reply = Accepts | Rejects | NoRows

section \<open>Process state, requests and responses\<close>

text \<open>
  \<open>State.supabase\<close> is \<open>None\<close> when the persistence configuration is absent; \<open>client\<close>
  says whether the module-level generation client has been created; \<open>api_key\<close> is the
  environment's \<open>GEMINI_API_KEY\<close>.
\<close>

record app_state =
  supabase :: "store option"
  client :: bool
  api_key :: "string option"

text \<open>The decoded token that \<open>verify_firebase_token\<close> hands to a handler.\<close>

record caller =
  uid :: string

record analyze_request =
  resume_text :: string
  req_target_role :: string
  known_skills :: "string option"

record progress_update =
  analysis_id :: string
  day_label :: string
  is_completed :: bool
  duration_type :: string
  skill_score :: int

record explain_request =
  topic :: string
  description :: string

record interview_request =
  iv_target_role :: string
  last_answer :: string
  history :: "json list"

text \<open>The field constraints that the request models declare.\<close>

definition AnalyzeRequest_ok :: "analyze_request \<Rightarrow> bool" where
  "AnalyzeRequest_ok req = (50 \<le> length (resume_text req))"

definition ProgressUpdate_ok :: "progress_update \<Rightarrow> bool" where
  "ProgressUpdate_ok d = (0 \<le> skill_score d \<and> skill_score d \<le> 5)"

datatype body =
    BJson json
  | BProgress "progress_row list"
  | BAnalyses "analysis_row list"
  | BStatus string "progress_row list option"

text \<open>
  What a handler ends with: a returned body (HTTP 200), a raised \<open>HTTPException\<close>, or an
  exception that leaves the handler, which the framework answers with its own 500.
\<close>

datatype response = Ok body | HTTPError nat detail | Unhandled pyexn

fun status_of :: "response \<Rightarrow> nat" where
  "status_of (Ok b) = 200"
| "status_of (HTTPError n d) = n"
| "status_of (Unhandled e) = 500"

section \<open>The identity verifier\<close>

text \<open>
  \<open>auth.verify_id_token\<close> either raises or returns the decoded token; its outcome is an
  input here. Every handler receives the decoded token as its \<open>user\<close> argument.
\<close>

definition verify_firebase_token :: "pyexn + caller \<Rightarrow> raised + caller" where
  "verify_firebase_token decoded =
     (case decoded of
        Inl e \<Rightarrow> Inl (Http 401 (Detail ''Invalid Neural Link Token''))
      | Inr decoded_token \<Rightarrow> Inr decoded_token)"

section \<open>The generation client\<close>

definition MODEL :: string where
  "MODEL = ''gemini-2.5-flash''"

definition get_client :: "app_state \<Rightarrow> pyexn + app_state" where
  "get_client st =
     (if \<not> client st then
        (case api_key st of
           None \<Rightarrow> Inl (RuntimeError ''GEMINI_API_KEY not found in environment'')
         | Some k \<Rightarrow>
             if k = [] then Inl (RuntimeError ''GEMINI_API_KEY not found in environment'')
             else Inr (st\<lparr>client := True\<rparr>))
      else Inr st)"

text \<open>
  The outcome of the guarded block of \<open>analyze_resume\<close>: the call or \<open>json.loads\<close>
  raised an exception with the given text, or the reply parsed to a value. The prompt of
  the structured mode is a fixed template around the three request fields and is not
  written out.
\<close>

datatype gen_outcome = Failed string | Parsed json

definition analyze_resume :: "app_state \<Rightarrow> gen_outcome \<Rightarrow> (pyexn + json) \<times> app_state" where
  "analyze_resume st gen =
     (case get_client st of
        Inl e \<Rightarrow> (Inl e, st)
      | Inr st' \<Rightarrow>
          (case gen of
             Parsed j \<Rightarrow> (Inr j, st')
           | Failed e \<Rightarrow>
               (Inr (JObj [(''error'', JStr ''AI Analysis Failed''), (''details'', JStr e)]),
                st')))"

text \<open>
  A free-text call: what is sent, and what the provider does with it (\<open>response.text\<close> may
  be \<open>None\<close>).
\<close>

record gen_request =
  model :: string
  contents :: string
  system_instruction :: "string option"

datatype llm_reply = LlmRaises string | LlmText "string option"

definition text_json :: "string option \<Rightarrow> json" where
  "text_json t = (case t of None \<Rightarrow> JNull | Some s \<Rightarrow> JStr s)"

section \<open>The handlers\<close>

subsection \<open>\<open>POST /analyze\<close>\<close>

text \<open>The \<open>raise\<close> of the branch \<open>if "error" in analysis_result\<close>.\<close>

definition generation_error :: "builtins \<Rightarrow> json \<Rightarrow> raised" where
  "generation_error bi analysis_result =
     (case py_index analysis_result ''error'' of
        Inl e \<Rightarrow> Exc e
      | Inr err \<Rightarrow>
          (let status = (if str_contains ''429'' (py_str bi err) then 429 else 503 :: nat)
           in case py_index analysis_result ''details'' of
                Inl e \<Rightarrow> Exc e
              | Inr d \<Rightarrow> Http status (DetailJson d)))"

text \<open>The row given to the insert into \<open>analyses\<close>.\<close>

definition analysis_insert :: "builtins \<Rightarrow> string \<Rightarrow> string \<Rightarrow> json \<Rightarrow> pyexn + analysis_fields" where
  "analysis_insert bi user_id' target_role' analysis_result =
     and_then (py_get analysis_result ''eligible_roles'' (JArr [])) (\<lambda>er.
     and_then (py_get analysis_result ''readiness_score'' (JInt 0)) (\<lambda>rs.
     and_then (py_int bi rs) (\<lambda>score.
     and_then (py_get analysis_result ''skills'' (JArr [])) (\<lambda>sk.
     and_then (py_get analysis_result ''required_skills'' (JArr [])) (\<lambda>rq.
     and_then (py_get analysis_result ''missing_skills'' (JArr [])) (\<lambda>ms.
     and_then (py_get analysis_result ''salary_tiers'' (JObj [])) (\<lambda>tiers.
     and_then (py_get analysis_result ''preparation_plans'' (JObj [])) (\<lambda>pp.
       Inr \<lparr>user_id = user_id', target_role = target_role', eligible_roles = er,
            readiness_score = score, skills = sk, required_skills = rq,
            missing_skills = ms, salary_tiers = tiers, preparation_plans = pp\<rparr>))))))))"

text \<open>The inner loop \<open>for task in tasks\<close>, over what \<open>tasks\<close> iterates to.\<close>

fun task_rows :: "builtins \<Rightarrow> string \<Rightarrow> string \<Rightarrow> string \<Rightarrow> json list \<Rightarrow> pyexn + progress_row list" where
  "task_rows bi aid uid' duration [] = Inr []"
| "task_rows bi aid uid' duration (task # tasks) =
     (case py_get task ''day'' JNull of
        Inl e \<Rightarrow> Inl e
      | Inr day \<Rightarrow>
          (case task_rows bi aid uid' duration tasks of
             Inl e \<Rightarrow> Inl e
           | Inr rows \<Rightarrow>
               Inr (\<lparr>p_user_id = uid', p_analysis_id = aid, p_day_label = py_str bi day,
                     p_duration_type = duration, p_is_completed = False, p_skill_score = 5,
                     p_updated_at = None\<rparr> # rows)))"

text \<open>The outer loop \<open>for duration, tasks in plans.items()\<close>.\<close>

fun plan_rows :: "builtins \<Rightarrow> string \<Rightarrow> string \<Rightarrow> (string \<times> json) list \<Rightarrow> pyexn + progress_row list" where
  "plan_rows bi aid uid' [] = Inr []"
| "plan_rows bi aid uid' ((duration, tasks) # plans) =
     (case py_iter tasks of
        Inl e \<Rightarrow> Inl e
      | Inr ts \<Rightarrow>
          (case task_rows bi aid uid' duration ts of
             Inl e \<Rightarrow> Inl e
           | Inr rows \<Rightarrow>
               (case plan_rows bi aid uid' plans of
                  Inl e \<Rightarrow> Inl e
                | Inr rest \<Rightarrow> Inr (rows @ rest))))"

definition progress_rows :: "builtins \<Rightarrow> string \<Rightarrow> string \<Rightarrow> json \<Rightarrow> pyexn + progress_row list" where
  "progress_rows bi aid uid' analysis_result =
     (case py_get analysis_result ''preparation_plans'' (JObj []) of
        Inl e \<Rightarrow> Inl e
      | Inr plans \<Rightarrow>
          (case py_items plans of
             Inl e \<Rightarrow> Inl e
           | Inr kvs \<Rightarrow> plan_rows bi aid uid' kvs))"

text \<open>
  The block under \<open>if State.supabase\<close>: insert, attach the id, seed. An exception raised
  after the insert leaves the inserted row in the store.
\<close>

definition persist_analysis ::
  "builtins \<Rightarrow> nat \<Rightarrow> db_reply \<Rightarrow> db_reply \<Rightarrow> store \<Rightarrow> analyze_request \<Rightarrow> caller \<Rightarrow> json
     \<Rightarrow> (raised + json) \<times> store" where
  "persist_analysis bi now ins ups db req user analysis_result =
     (case analysis_insert bi (uid user) (req_target_role req) analysis_result of
        Inl e \<Rightarrow> (Inl (Exc e), db)
      | Inr payload \<Rightarrow>
          (case ins of
             Rejects \<Rightarrow> (Inl (Exc APIError), db)
           | NoRows \<Rightarrow> (Inl (Http 500 (Detail ''Database Sync Failed.'')), db)
           | Accepts \<Rightarrow>
               (let (row, db1) = insert_analysis now payload db;
                    analysis_id' = a_id row
                in case py_setitem analysis_result ''id'' (JStr analysis_id') of
                     Inl e \<Rightarrow> (Inl (Exc e), db1)
                   | Inr result \<Rightarrow>
                       (case progress_rows bi analysis_id' (uid user) result of
                          Inl e \<Rightarrow> (Inl (Exc e), db1)
                        | Inr rows \<Rightarrow>
                            if rows = [] then (Inr result, db1)
                            else
                              (case ups of
                                 Accepts \<Rightarrow>
                                   (Inr result,
                                    db1\<lparr>roadmap_progress :=
                                           upsert_rows (roadmap_progress db1) rows\<rparr>)
                               | Rejects \<Rightarrow> (Inl (Exc APIError), db1)
                               | NoRows \<Rightarrow> (Inr result, db1))))))"

text \<open>The body of the \<open>try\<close> block of \<open>analyze\<close>.\<close>

definition analyze_try ::
  "builtins \<Rightarrow> app_state \<Rightarrow> nat \<Rightarrow> db_reply \<Rightarrow> db_reply \<Rightarrow> gen_outcome \<Rightarrow> analyze_request
     \<Rightarrow> caller \<Rightarrow> (raised + json) \<times> app_state" where
  "analyze_try bi st now ins ups gen req user =
     (case analyze_resume st gen of
        (Inl e, st1) \<Rightarrow> (Inl (Exc e), st1)
      | (Inr analysis_result, st1) \<Rightarrow>
          (case py_in ''error'' analysis_result of
             Inl e \<Rightarrow> (Inl (Exc e), st1)
           | Inr True \<Rightarrow> (Inl (generation_error bi analysis_result), st1)
           | Inr False \<Rightarrow>
               (case supabase st1 of
                  None \<Rightarrow> (Inr analysis_result, st1)
                | Some db \<Rightarrow>
                    (case persist_analysis bi now ins ups db req user analysis_result of
                       (r, db') \<Rightarrow> (r, st1\<lparr>supabase := Some db'\<rparr>)))))"

text \<open>
  \<open>analyze\<close>: an \<open>HTTPException\<close> raised in the block is raised again, every other
  exception becomes a 500.
\<close>

definition analyze ::
  "builtins \<Rightarrow> app_state \<Rightarrow> nat \<Rightarrow> db_reply \<Rightarrow> db_reply \<Rightarrow> gen_outcome \<Rightarrow> analyze_request
     \<Rightarrow> caller \<Rightarrow> response \<times> app_state" where
  "analyze bi st now ins ups gen req user =
     (case analyze_try bi st now ins ups gen req user of
        (Inr analysis_result, st') \<Rightarrow> (Ok (BJson analysis_result), st')
      | (Inl (Http status d), st') \<Rightarrow> (HTTPError status d, st')
      | (Inl (Exc e), st') \<Rightarrow> (HTTPError 500 (Detail ''Internal processing error.''), st'))"

subsection \<open>\<open>POST /update-progress\<close>\<close>

text \<open>The row handed to the upsert; the store evaluates \<open>now()\<close> to its current time.\<close>

definition update_row :: "nat \<Rightarrow> progress_update \<Rightarrow> caller \<Rightarrow> progress_row" where
  "update_row now data user =
     \<lparr>p_user_id = uid user, p_analysis_id = analysis_id data, p_day_label = day_label data,
      p_duration_type = duration_type data, p_is_completed = is_completed data,
      p_skill_score = skill_score data, p_updated_at = Some now\<rparr>"

definition update_progress ::
  "app_state \<Rightarrow> nat \<Rightarrow> db_reply \<Rightarrow> progress_update \<Rightarrow> caller \<Rightarrow> response \<times> app_state" where
  "update_progress st now reply data user =
     (case supabase st of
        None \<Rightarrow> (HTTPError 500 (Detail ''Supabase offline''), st)
      | Some db \<Rightarrow>
          (case reply of
             Accepts \<Rightarrow>
               (Ok (BStatus ''success'' (Some [update_row now data user])),
                st\<lparr>supabase :=
                     Some (db\<lparr>roadmap_progress :=
                                upsert_row (roadmap_progress db) (update_row now data user)\<rparr>)\<rparr>)
           | Rejects \<Rightarrow> (HTTPError 500 (Detail ''Database conflict detected.''), st)
           | NoRows \<Rightarrow> (Ok (BStatus ''success'' (Some [])), st)))"

subsection \<open>\<open>GET /get-progress/{analysis_id}\<close> and \<open>GET /learning-records\<close>\<close>

definition get_progress :: "app_state \<Rightarrow> db_reply \<Rightarrow> string \<Rightarrow> caller \<Rightarrow> response" where
  "get_progress st reply aid user =
     (case supabase st of
        None \<Rightarrow> Ok (BProgress [])
      | Some db \<Rightarrow>
          (case reply of
             Accepts \<Rightarrow> Ok (BProgress (select_progress db aid (uid user)))
           | Rejects \<Rightarrow> Unhandled APIError
           | NoRows \<Rightarrow> Ok (BProgress [])))"

definition get_records :: "app_state \<Rightarrow> db_reply \<Rightarrow> caller \<Rightarrow> response" where
  "get_records st reply user =
     (case supabase st of
        None \<Rightarrow> Ok (BAnalyses [])
      | Some db \<Rightarrow>
          (case reply of
             Accepts \<Rightarrow> Ok (BAnalyses (select_analyses db (uid user)))
           | Rejects \<Rightarrow> Unhandled APIError
           | NoRows \<Rightarrow> Ok (BAnalyses [])))"

subsection \<open>\<open>DELETE /delete-record/{record_id}\<close>\<close>

text \<open>
  The handler has no test of \<open>State.supabase\<close> and no \<open>try\<close>: without a client the
  attribute access on \<open>None\<close> raises.
\<close>

definition delete_record :: "app_state \<Rightarrow> db_reply \<Rightarrow> string \<Rightarrow> caller \<Rightarrow> response \<times> app_state" where
  "delete_record st reply record_id user =
     (case supabase st of
        None \<Rightarrow> (Unhandled AttributeError, st)
      | Some db \<Rightarrow>
          (case reply of
             Accepts \<Rightarrow>
               (Ok (BStatus ''success'' None),
                st\<lparr>supabase := Some (delete_analysis db record_id (uid user))\<rparr>)
           | Rejects \<Rightarrow> (Unhandled APIError, st)
           | NoRows \<Rightarrow> (Ok (BStatus ''success'' None), st)))"

subsection \<open>\<open>POST /explain-task\<close>\<close>

definition explain_prompt :: "explain_request \<Rightarrow> string" where
  "explain_prompt req =
     ''You are a Senior Technical Mentor. Explain the topic '' @ [CHR 0x27] @ topic req @
     [CHR 0x27] @ '' clearly for a student. Context: '' @ description req @
     ''. Use bullet points, keep it under 150 words, and focus on practical application.''"

definition explain_fallback :: string where
  "explain_fallback = ''Neural Link offline. The AI Mentor is currently recalibrating.''"

definition explain_task ::
  "app_state \<Rightarrow> (gen_request \<Rightarrow> llm_reply) \<Rightarrow> explain_request \<Rightarrow> caller \<Rightarrow> response \<times> app_state" where
  "explain_task st llm req user =
     (case get_client st of
        Inl e \<Rightarrow> (Ok (BJson (JObj [(''explanation'', JStr explain_fallback)])), st)
      | Inr st1 \<Rightarrow>
          (case llm \<lparr>model = MODEL, contents = explain_prompt req, system_instruction = None\<rparr> of
             LlmRaises e \<Rightarrow> (Ok (BJson (JObj [(''explanation'', JStr explain_fallback)])), st1)
           | LlmText t \<Rightarrow> (Ok (BJson (JObj [(''explanation'', text_json t)])), st1)))"

subsection \<open>\<open>POST /mock-interview\<close>\<close>

text \<open>
  The module defines \<open>mock_interview\<close> twice and registers both functions on the same
  route, in this order. \<open>mock_interview_1\<close> is the first definition, \<open>mock_interview_2\<close>
  the second.
\<close>

definition system_instruction_1 :: "interview_request \<Rightarrow> string" where
  "system_instruction_1 req =
     ''You are a Senior Technical Interviewer for the role of '' @ iv_target_role req @ ''. '' @
     ''Your goal is to assess the candidate's depth of knowledge. '' @
     ''1. Ask only ONE technical question at a time. '' @
     ''2. If the user provides an answer, give a brief 1-sentence feedback and then ask a follow-up or new question. '' @
     ''3. Keep the conversation professional and challenging. '' @
     ''4. If the user says 'start', ask the first introductory technical question.''"

text \<open>The list \<open>messages\<close> of the first definition: a role and the single part.\<close>

fun history_messages :: "json list \<Rightarrow> pyexn + (string \<times> json) list" where
  "history_messages [] = Inr []"
| "history_messages (entry # entries) =
     (case py_index entry ''q'' of
        Inl e \<Rightarrow> Inl e
      | Inr q \<Rightarrow>
          (case py_index entry ''a'' of
             Inl e \<Rightarrow> Inl e
           | Inr a \<Rightarrow>
               (case history_messages entries of
                  Inl e \<Rightarrow> Inl e
                | Inr ms \<Rightarrow> Inr ((''user'', q) # (''model'', a) # ms))))"

text \<open>
  What the first definition sends: \<open>messages\<close> is built and then left unused, the call
  takes \<open>input_text\<close> as its contents.
\<close>

definition interview_call_1 :: "interview_request \<Rightarrow> pyexn + gen_request" where
  "interview_call_1 req =
     (case history_messages (history req) of
        Inl e \<Rightarrow> Inl e
      | Inr ms \<Rightarrow>
          (let messages = (''user'', JStr (system_instruction_1 req)) # ms;
               input_text = (if last_answer req \<noteq> [] then last_answer req
                             else ''Let's start the interview.'')
           in Inr \<lparr>model = MODEL, contents = input_text,
                   system_instruction = Some (system_instruction_1 req)\<rparr>))"

definition mock_interview_1 ::
  "app_state \<Rightarrow> (gen_request \<Rightarrow> llm_reply) \<Rightarrow> interview_request \<Rightarrow> caller \<Rightarrow> response \<times> app_state" where
  "mock_interview_1 st llm req user =
     (case get_client st of
        Inl e \<Rightarrow> (HTTPError 500 (DetailOf e), st)
      | Inr st1 \<Rightarrow>
          (case interview_call_1 req of
             Inl e \<Rightarrow> (HTTPError 500 (DetailOf e), st1)
           | Inr call \<Rightarrow>
               (case llm call of
                  LlmRaises e \<Rightarrow> (HTTPError 500 (DetailOf (ProviderError e)), st1)
                | LlmText t \<Rightarrow> (Ok (BJson (JObj [(''question'', text_json t)])), st1))))"

definition persona :: "interview_request \<Rightarrow> string" where
  "persona req =
     ''You are a Senior Technical Lead at a top-tier tech company. '' @
     ''You are conducting a technical interview for the role of '' @ iv_target_role req @ ''. '' @
     ''STRICT RULES: '' @
     ''1. Ask exactly ONE technical question at a time. '' @
     ''2. Evaluate the user's previous answer briefly (2 sentences max). '' @
     ''3. Progress from fundamental concepts to complex architecture. '' @
     ''4. If the user's answer is weak, ask a clarifying follow-up. '' @
     ''5. Maintain a professional, slightly intimidating but fair tone.''"

text \<open>One turn of the history as the second definition writes it into \<open>chat_context\<close>.\<close>

definition turn_text :: "builtins \<Rightarrow> json \<Rightarrow> json \<Rightarrow> string" where
  "turn_text bi q a =
     ''Interviewer: '' @ py_str bi q @ [CHR 0x0A] @ ''Candidate: '' @ py_str bi a @ [CHR 0x0A]"

fun history_context :: "builtins \<Rightarrow> string \<Rightarrow> json list \<Rightarrow> pyexn + string" where
  "history_context bi chat_context [] = Inr chat_context"
| "history_context bi chat_context (entry # entries) =
     (case py_index entry ''q'' of
        Inl e \<Rightarrow> Inl e
      | Inr q \<Rightarrow>
          (case py_index entry ''a'' of
             Inl e \<Rightarrow> Inl e
           | Inr a \<Rightarrow> history_context bi (chat_context @ turn_text bi q a) entries))"

definition interview_call_2 :: "builtins \<Rightarrow> interview_request \<Rightarrow> pyexn + gen_request" where
  "interview_call_2 bi req =
     (case history_context bi (''Target Role: '' @ iv_target_role req @ [CHR 0x0A]) (history req) of
        Inl e \<Rightarrow> Inl e
      | Inr chat_context \<Rightarrow>
          Inr \<lparr>model = MODEL,
               contents = chat_context @ ''Candidate's latest response: '' @ last_answer req,
               system_instruction = Some (persona req)\<rparr>)"

definition mock_interview_2 ::
  "builtins \<Rightarrow> app_state \<Rightarrow> (gen_request \<Rightarrow> llm_reply) \<Rightarrow> interview_request \<Rightarrow> caller
     \<Rightarrow> response \<times> app_state" where
  "mock_interview_2 bi st llm req user =
     (case get_client st of
        Inl e \<Rightarrow> (HTTPError 500 (Detail ''Neural link failed.''), st)
      | Inr st1 \<Rightarrow>
          (case interview_call_2 bi req of
             Inl e \<Rightarrow> (HTTPError 500 (Detail ''Neural link failed.''), st1)
           | Inr call \<Rightarrow>
               (case llm call of
                  LlmRaises e \<Rightarrow> (HTTPError 500 (Detail ''Neural link failed.''), st1)
                | LlmText t \<Rightarrow> (Ok (BJson (JObj [(''question'', text_json t)])), st1))))"

section \<open>Notions used to state the properties\<close>

text \<open>
  The number of tasks in the \<open>preparation_plans\<close> of a generation result, over all the
  durations it has.
\<close>

definition task_count :: "json \<Rightarrow> nat" where
  "task_count analysis_result =
     (case py_get analysis_result ''preparation_plans'' (JObj []) of
        Inl e \<Rightarrow> 0
      | Inr plans \<Rightarrow>
          (case py_items plans of
             Inl e \<Rightarrow> 0
           | Inr kvs \<Rightarrow>
               sum_list (map (\<lambda>kv. case py_iter (snd kv) of Inl e \<Rightarrow> 0 | Inr ts \<Rightarrow> length ts) kvs)))"

text \<open>
  The referential invariant of section 3 of the specification: every progress row names an
  analysis row that exists and has the same user id.
\<close>

definition refs_ok :: "store \<Rightarrow> bool" where
  "refs_ok db =
     list_all (\<lambda>r. list_ex (\<lambda>a. a_id a = p_analysis_id r \<and> user_id (a_fields a) = p_user_id r)
                      (analyses db))
       (roadmap_progress db)"

definition state_refs_ok :: "app_state \<Rightarrow> bool" where
  "state_refs_ok st = (case supabase st of None \<Rightarrow> True | Some db \<Rightarrow> refs_ok db)"

text \<open>The analysis with the given id exists and belongs to the given user.\<close>

definition owns_analysis :: "app_state \<Rightarrow> string \<Rightarrow> string \<Rightarrow> bool" where
  "owns_analysis st aid u =
     (case supabase st of
        None \<Rightarrow> False
      | Some db \<Rightarrow> list_ex (\<lambda>a. a_id a = aid \<and> user_id (a_fields a) = u) (analyses db))"

text \<open>The unique constraint behind the conflict key.\<close>

definition keys_distinct :: "store \<Rightarrow> bool" where
  "keys_distinct db = distinct (map progress_key (roadmap_progress db))"

text \<open>A progress row without its timestamp.\<close>

definition untimed :: "progress_row \<Rightarrow> progress_row" where
  "untimed r = r\<lparr>p_updated_at := None\<rparr>"

subsection \<open>Example inputs\<close>

definition bi0 :: builtins where
  "bi0 = \<lparr>py_repr = (\<lambda>x. ''?''), py_int_of_str = (\<lambda>s. None)\<rparr>"

definition empty_store :: store where
  "empty_store = \<lparr>analyses = [], roadmap_progress = [], next_id = 0\<rparr>"

definition st_off :: app_state where
  "st_off = \<lparr>supabase = None, client = False, api_key = Some ''key''\<rparr>"

definition st_on :: app_state where
  "st_on = \<lparr>supabase = Some empty_store, client = False, api_key = Some ''key''\<rparr>"

definition st_nokey :: app_state where
  "st_nokey = \<lparr>supabase = None, client = False, api_key = None\<rparr>"

definition alice :: caller where
  "alice = \<lparr>uid = ''alice''\<rparr>"

definition req0 :: analyze_request where
  "req0 = \<lparr>resume_text = replicate 50 (CHR ''x''), req_target_role = ''Backend Engineer'',
           known_skills = Some ''''\<rparr>"

text \<open>A partial generation result: one duration only, no skill lists.\<close>

definition partial_result :: json where
  "partial_result =
     JObj [(''readiness_score'', JInt 70),
           (''preparation_plans'', JObj [(''30'', JArr [JObj [(''day'', JStr ''Day 1'')]])])]"

text \<open>A generation result whose two tasks of the 30-day plan have no \<open>day\<close>.\<close>

definition undated_result :: json where
  "undated_result =
     JObj [(''preparation_plans'',
            JObj [(''30'', JArr [JObj [(''topic'', JStr ''SQL'')],
                                 JObj [(''topic'', JStr ''REST'')]])])]"

definition upd0 :: progress_update where
  "upd0 = \<lparr>analysis_id = ''0'', day_label = ''Day 1'', is_completed = True,
           duration_type = ''30'', skill_score = 3\<rparr>"

definition upd1 :: progress_update where
  "upd1 = \<lparr>analysis_id = ''0'', day_label = ''Day 1'', is_completed = True,
           duration_type = ''30'', skill_score = 4\<rparr>"

definition exp0 :: explain_request where
  "exp0 = \<lparr>topic = ''SQL joins'', description = ''inner and outer joins''\<rparr>"

definition iv0 :: interview_request where
  "iv0 = \<lparr>iv_target_role = ''Backend Engineer'', last_answer = ''A hash map.'',
          history = [JObj [(''q'', JStr ''What is an index?''), (''a'', JStr ''A lookup structure.'')]]\<rparr>"

text \<open>A provider that answers every call with the same text, and one that always fails.\<close>

definition llm_ok :: "gen_request \<Rightarrow> llm_reply" where
  "llm_ok g = LlmText (Some ''Joins combine rows.'')"

definition llm_down :: "gen_request \<Rightarrow> llm_reply" where
  "llm_down g = LlmRaises ''503 UNAVAILABLE''"

definition bob :: caller where
  "bob = \<lparr>uid = ''bob''\<rparr>"

definition no_fields :: "string \<Rightarrow> analysis_fields" where
  "no_fields u =
     \<lparr>user_id = u, target_role = ''Backend Engineer'', eligible_roles = JArr [],
      readiness_score = 0, skills = JArr [], required_skills = JArr [],
      missing_skills = JArr [], salary_tiers = JObj [], preparation_plans = JObj []\<rparr>"

definition day1_row :: "string \<Rightarrow> progress_row" where
  "day1_row u =
     \<lparr>p_user_id = u, p_analysis_id = ''0'', p_day_label = ''Day 1'', p_duration_type = ''30'',
      p_is_completed = False, p_skill_score = 5, p_updated_at = None\<rparr>"

text \<open>
  A store in which analysis \<open>0\<close> belongs to bob and analysis \<open>1\<close> to alice, and in which
  both users have a progress row under the analysis id \<open>0\<close>.
\<close>

definition shared_store :: store where
  "shared_store =
     \<lparr>analyses = [\<lparr>a_id = ''0'', a_created_at = 1, a_fields = no_fields ''bob''\<rparr>,
                  \<lparr>a_id = ''1'', a_created_at = 2, a_fields = no_fields ''alice''\<rparr>],
      roadmap_progress = [day1_row ''bob'', day1_row ''alice''],
      next_id = 2\<rparr>"

definition st_shared :: app_state where
  "st_shared = \<lparr>supabase = Some shared_store, client = True, api_key = Some ''key''\<rparr>"

text \<open>A store in which alice has analysis \<open>0\<close> and one progress row under it.\<close>

definition owned_store :: store where
  "owned_store =
     \<lparr>analyses = [\<lparr>a_id = ''0'', a_created_at = 1, a_fields = no_fields ''alice''\<rparr>],
      roadmap_progress = [day1_row ''alice''],
      next_id = 1\<rparr>"

definition st_owned :: app_state where
  "st_owned = \<lparr>supabase = Some owned_store, client = True, api_key = Some ''key''\<rparr>"

section \<open>Properties\<close>

subsection \<open>The generation client on the example states\<close>

lemma get_client_examples:
  "get_client st_off = Inr (st_off\<lparr>client := True\<rparr>)"
  "get_client st_on = Inr (st_on\<lparr>client := True\<rparr>)"
  "get_client st_nokey = Inl (RuntimeError ''GEMINI_API_KEY not found in environment'')"
  by (simp_all add: get_client_def st_off_def st_on_def st_nokey_def)

subsection \<open>Generation failures in \<open>analyze\<close>\<close>

text \<open>
  Whatever text the provider's exception carries, \<open>analyze_resume\<close> stores it under
  \<open>details\<close> and the constant \<open>AI Analysis Failed\<close> under \<open>error\<close>; \<open>analyze\<close> looks for
  \<open>429\<close> under \<open>error\<close>, so every failure of the call is answered with 503.
\<close>

lemma analyze_Failed:
  "get_client st = Inr st1 \<Longrightarrow>
   analyze bi st now ins ups (Failed e) req user = (HTTPError 503 (DetailJson (JStr e)), st1)"
  by (simp add: analyze_def analyze_try_def analyze_resume_def py_in_def generation_error_def
      py_index_def py_str_def)

text \<open>
  Claim C2: when the structured generation call fails, Analyze answers 429 exactly when the
  provider's message carries the marker \<open>429\<close>, and 503 otherwise. Here the call fails with
  the message \<open>429 RESOURCE_EXHAUSTED\<close> on a valid request, and the answer is 503 with that
  message as its detail.
\<close>

theorem analyze_rate_limit_message_gives_503:
  "AnalyzeRequest_ok req0 \<and>
   fst (analyze bi0 st_on 0 Accepts Accepts (Failed ''429 RESOURCE_EXHAUSTED'') req0 alice)
     = HTTPError 503 (DetailJson (JStr ''429 RESOURCE_EXHAUSTED''))"
  by (simp add: analyze_Failed get_client_examples AnalyzeRequest_ok_def req0_def)

subsection \<open>\<open>explain_task\<close> never fails\<close>

text \<open>
  Claim C9: ExplainTopic always answers with HTTP 200: with the model's text when the call
  succeeds, and with the fixed fallback explanation when the provider fails or the
  generation-service key is missing.
\<close>

theorem explain_task_always_200:
  "status_of (fst (explain_task st llm req user)) = 200 \<and>
   (\<forall>st1 t. get_client st = Inr st1 \<and>
       llm \<lparr>model = MODEL, contents = explain_prompt req, system_instruction = None\<rparr> = LlmText t
       \<longrightarrow> fst (explain_task st llm req user)
             = Ok (BJson (JObj [(''explanation'', text_json t)]))) \<and>
   (\<forall>st1 e. get_client st = Inr st1 \<and>
       llm \<lparr>model = MODEL, contents = explain_prompt req, system_instruction = None\<rparr> = LlmRaises e
       \<longrightarrow> fst (explain_task st llm req user)
             = Ok (BJson (JObj [(''explanation'', JStr explain_fallback)]))) \<and>
   (\<forall>e. get_client st = Inl e
       \<longrightarrow> fst (explain_task st llm req user)
             = Ok (BJson (JObj [(''explanation'', JStr explain_fallback)])))"
  by (simp add: explain_task_def split: sum.splits llm_reply.splits)

theorem explain_task_always_200_witness:
  "status_of (fst (explain_task st_off llm_ok exp0 alice)) = 200 \<and>
   fst (explain_task st_off llm_ok exp0 alice)
     = Ok (BJson (JObj [(''explanation'', JStr ''Joins combine rows.'')])) \<and>
   fst (explain_task st_off llm_down exp0 alice)
     = Ok (BJson (JObj [(''explanation'', JStr explain_fallback)])) \<and>
   fst (explain_task st_nokey llm_ok exp0 alice)
     = Ok (BJson (JObj [(''explanation'', JStr explain_fallback)]))"
  using explain_task_always_200 [of st_off llm_ok exp0 alice]
    explain_task_always_200 [of st_off llm_down exp0 alice]
    explain_task_always_200 [of st_nokey llm_ok exp0 alice]
  by (simp add: get_client_examples llm_ok_def llm_down_def text_json_def)

subsection \<open>The prompt of an interview turn\<close>

text \<open>
  The second definition writes every turn of the history into the contents, oldest first,
  and ends with the latest answer.
\<close>

lemma history_context_turns:
  "history_context bi ctx (map (\<lambda>qa. JObj [(''q'', fst qa), (''a'', snd qa)]) turns)
     = Inr (ctx @ concat (map (\<lambda>qa. turn_text bi (fst qa) (snd qa)) turns))"
  by (induction turns arbitrary: ctx) (simp_all add: py_index_def)

lemma interview_call_2_linearizes:
  "history req = map (\<lambda>qa. JObj [(''q'', fst qa), (''a'', snd qa)]) turns \<Longrightarrow>
   interview_call_2 bi req =
     Inr \<lparr>model = MODEL,
          contents = ''Target Role: '' @ iv_target_role req @ [CHR 0x0A] @
                     concat (map (\<lambda>qa. turn_text bi (fst qa) (snd qa)) turns) @
                     ''Candidate's latest response: '' @ last_answer req,
          system_instruction = Some (persona req)\<rparr>"
  by (simp add: interview_call_2_def history_context_turns)

text \<open>
  Claim C3: the prompt context of a MockInterviewTurn holds every prior (question, answer)
  pair of the history, oldest first, followed by the latest answer. The first definition of
  \<open>mock_interview\<close> is evaluated here on a history of one turn: the call it makes has the
  latest answer alone as its contents, and the question of the history occurs neither in
  the contents nor in the system instruction.
\<close>

theorem mock_interview_1_drops_history:
  "interview_call_1 iv0 =
     Inr \<lparr>model = MODEL, contents = ''A hash map.'',
          system_instruction = Some (system_instruction_1 iv0)\<rparr> \<and>
   \<not> str_contains ''What is an index?'' ''A hash map.'' \<and>
   \<not> str_contains ''What is an index?'' (system_instruction_1 iv0)"
  by (simp add: interview_call_1_def iv0_def py_index_def system_instruction_1_def)

subsection \<open>Without a persistence client\<close>

lemma analyze_no_store:
  "supabase st = None \<Longrightarrow> get_client st = Inr st1 \<Longrightarrow> ''error'' \<notin> set (map fst kvs) \<Longrightarrow>
   analyze bi st now ins ups (Parsed (JObj kvs)) req user = (Ok (BJson (JObj kvs)), st1)"
  by (auto simp add: analyze_def analyze_try_def analyze_resume_def py_in_def get_client_def
      split: if_splits option.splits)

lemma analyze_keeps_no_store:
  "supabase st = None \<Longrightarrow> supabase (snd (analyze bi st now ins ups gen req user)) = None"
  by (auto simp add: analyze_def analyze_try_def analyze_resume_def get_client_def
      split: if_splits option.splits sum.splits gen_outcome.splits bool.splits raised.splits
        prod.splits)

text \<open>
  \<open>delete_record\<close> has neither the test of \<open>State.supabase\<close> of its siblings nor a
  \<open>try\<close>: the exception leaves the handler.
\<close>

lemma delete_record_no_store:
  "supabase st = None \<Longrightarrow> delete_record st reply rid user = (Unhandled AttributeError, st)"
  by (simp add: delete_record_def)

text \<open>
  Claim C4, as stated: without a persistence client every write endpoint, the persistence
  step of Analyze among them, answers with an explicit HTTP 500. On a valid request whose
  generation succeeds, \<open>analyze\<close> without a client skips the persistence step and returns
  the generation result.
\<close>

theorem analyze_without_store_succeeds:
  "AnalyzeRequest_ok req0 \<and> supabase st_off = None \<and>
   analyze bi0 st_off 0 Accepts Accepts (Parsed partial_result) req0 alice
     = (Ok (BJson partial_result), st_off\<lparr>client := True\<rparr>)"
proof -
  have off: "supabase st_off = None" by (simp add: st_off_def)
  have ok: "AnalyzeRequest_ok req0" by (simp add: AnalyzeRequest_ok_def req0_def)
  have "analyze bi0 st_off 0 Accepts Accepts (Parsed partial_result) req0 alice
     = (Ok (BJson partial_result), st_off\<lparr>client := True\<rparr>)"
    unfolding partial_result_def
    by (rule analyze_no_store [OF off get_client_examples(1)]) simp
  with off ok show ?thesis by simp
qed

text \<open>
  Claim C4, amended: without a persistence client, GetProgress and ListRecords return the
  empty sequence, UpdateProgress answers with the explicit HTTP 500 \<open>Supabase offline\<close>,
  and Analyze leaves the persistence step out: it stores nothing and, when the generation
  yields an object without an \<open>error\<close> key, returns that object with success.
\<close>

theorem persistence_absent:
  assumes "supabase st = None"
  shows "get_progress st reply aid user = Ok (BProgress []) \<and>
         get_records st reply user = Ok (BAnalyses []) \<and>
         update_progress st now reply data user
           = (HTTPError 500 (Detail ''Supabase offline''), st) \<and>
         supabase (snd (analyze bi st now ins ups gen req user)) = None \<and>
         (\<forall>st1 kvs. get_client st = Inr st1 \<and> gen = Parsed (JObj kvs) \<and>
                    ''error'' \<notin> set (map fst kvs)
            \<longrightarrow> analyze bi st now ins ups gen req user = (Ok (BJson (JObj kvs)), st1))"
  using assms
  by (simp add: get_progress_def get_records_def update_progress_def analyze_keeps_no_store
      analyze_no_store)

theorem persistence_absent_witness:
  "supabase st_off = None \<and>
   get_progress st_off Accepts ''0'' alice = Ok (BProgress []) \<and>
   get_records st_off Accepts alice = Ok (BAnalyses []) \<and>
   update_progress st_off 0 Accepts upd0 alice
     = (HTTPError 500 (Detail ''Supabase offline''), st_off) \<and>
   analyze bi0 st_off 0 Accepts Accepts (Parsed (JObj [])) req0 alice
     = (Ok (BJson (JObj [])), st_off\<lparr>client := True\<rparr>)"
proof -
  have h: "supabase st_off = None" by (simp add: st_off_def)
  show ?thesis
    using h persistence_absent [OF h, of Accepts "''0''" alice 0 upd0 bi0 Accepts Accepts
        "Parsed (JObj [])" req0]
    by (simp add: get_client_examples)
qed

subsection \<open>Reads and deletes are scoped by the caller\<close>

text \<open>
  Claim C6: every read and delete is scoped by the verified caller's user id. GetProgress
  returns only rows of the caller (and of the requested analysis), whatever analysis id is
  asked for; ListRecords returns only the caller's analyses; DeleteRecord removes no
  progress row and only analysis rows that have both the given record id and the caller's
  user id.
\<close>

theorem reads_and_deletes_scoped_by_caller:
  "(get_progress st reply aid user = Ok (BProgress rows) \<longrightarrow>
      (\<forall>r \<in> set rows. p_user_id r = uid user \<and> p_analysis_id r = aid)) \<and>
   (get_records st reply user = Ok (BAnalyses recs) \<longrightarrow>
      (\<forall>a \<in> set recs. user_id (a_fields a) = uid user)) \<and>
   (supabase st = Some db \<longrightarrow>
      (\<exists>db'. supabase (snd (delete_record st reply rid user)) = Some db' \<and>
         roadmap_progress db' = roadmap_progress db \<and>
         set (analyses db') \<subseteq> set (analyses db) \<and>
         (\<forall>a \<in> set (analyses db). a \<notin> set (analyses db') \<longrightarrow>
            a_id a = rid \<and> user_id (a_fields a) = uid user)))"
  by (auto simp add: get_progress_def get_records_def delete_record_def select_progress_def
      select_analyses_def delete_analysis_def split: option.splits db_reply.splits)

lemma shared_store_reads:
  "get_progress st_shared Accepts ''0'' alice = Ok (BProgress [day1_row ''alice''])"
  "get_records st_shared Accepts alice
     = Ok (BAnalyses [\<lparr>a_id = ''1'', a_created_at = 2, a_fields = no_fields ''alice''\<rparr>])"
  "supabase st_shared = Some shared_store"
  "snd (delete_record st_shared Accepts ''0'' alice) = st_shared"
  by (simp_all add: get_progress_def get_records_def delete_record_def select_progress_def
      select_analyses_def delete_analysis_def st_shared_def shared_store_def day1_row_def
      no_fields_def alice_def)

theorem reads_and_deletes_scoped_by_caller_witness:
  "get_progress st_shared Accepts ''0'' alice = Ok (BProgress [day1_row ''alice'']) \<and>
   p_user_id (day1_row ''alice'') = uid alice \<and>
   p_analysis_id (day1_row ''alice'') = ''0'' \<and>
   get_records st_shared Accepts alice
     = Ok (BAnalyses [\<lparr>a_id = ''1'', a_created_at = 2, a_fields = no_fields ''alice''\<rparr>]) \<and>
   user_id (a_fields \<lparr>a_id = ''1'', a_created_at = 2, a_fields = no_fields ''alice''\<rparr>)
     = uid alice \<and>
   supabase st_shared = Some shared_store \<and>
   supabase (snd (delete_record st_shared Accepts ''0'' alice)) = Some shared_store"
  using reads_and_deletes_scoped_by_caller
    [of st_shared Accepts "''0''" alice "[day1_row ''alice'']"
        "[\<lparr>a_id = ''1'', a_created_at = 2, a_fields = no_fields ''alice''\<rparr>]"
        shared_store "''0''"]
  by (simp add: shared_store_reads)

subsection \<open>The upsert under the conflict key\<close>

lemma map_key_replace:
  "map (progress_key \<circ> (\<lambda>x. if progress_key x = progress_key r then r else x)) tbl
     = map progress_key tbl"
  by (induction tbl) auto

lemma map_key_replace':
  "map progress_key (map (\<lambda>x. if progress_key x = progress_key r then r else x) tbl)
     = map progress_key tbl"
  using map_key_replace [of r tbl] by simp

lemma map_key_upsert_row:
  "map progress_key (upsert_row tbl r)
     = (if progress_key r \<in> set (map progress_key tbl) then map progress_key tbl
        else map progress_key tbl @ [progress_key r])"
  unfolding upsert_row_def using map_key_replace' [of r tbl]
  by (simp del: map_map set_map)

lemma upsert_row_keys:
  "set (map progress_key (upsert_row tbl r)) = insert (progress_key r) (set (map progress_key tbl))"
  unfolding map_key_upsert_row by auto

lemma upsert_row_distinct:
  "distinct (map progress_key tbl) \<Longrightarrow> distinct (map progress_key (upsert_row tbl r))"
  unfolding map_key_upsert_row by auto

lemma replace_filter_eq:
  "distinct (map progress_key tbl) \<Longrightarrow> progress_key r \<in> set (map progress_key tbl) \<Longrightarrow>
   filter (\<lambda>x. progress_key x = progress_key r)
     (map (\<lambda>x. if progress_key x = progress_key r then r else x) tbl) = [r]"
proof (induction tbl)
  case Nil
  then show ?case by simp
next
  case (Cons a tbl)
  show ?case
  proof (cases "progress_key a = progress_key r")
    case True
    with Cons.prems have "progress_key r \<notin> set (map progress_key tbl)" by auto
    then have "filter (\<lambda>x. progress_key x = progress_key r)
        (map (\<lambda>x. if progress_key x = progress_key r then r else x) tbl) = []"
      by (induction tbl) auto
    with True show ?thesis by simp
  next
    case False
    with Cons show ?thesis by auto
  qed
qed

lemma filter_key_absent:
  "progress_key r \<notin> set (map progress_key tbl) \<Longrightarrow>
   filter (\<lambda>x. progress_key x = progress_key r) tbl = []"
  by (induction tbl) auto

lemma upsert_row_filter_eq:
  "distinct (map progress_key tbl) \<Longrightarrow>
   filter (\<lambda>x. progress_key x = progress_key r) (upsert_row tbl r) = [r]"
  by (simp add: upsert_row_def replace_filter_eq filter_key_absent del: set_map)

lemma upsert_row_filter_neq:
  "filter (\<lambda>x. progress_key x \<noteq> progress_key r) (upsert_row tbl r)
     = filter (\<lambda>x. progress_key x \<noteq> progress_key r) tbl"
proof -
  have "filter (\<lambda>x. progress_key x \<noteq> progress_key r)
          (map (\<lambda>x. if progress_key x = progress_key r then r else x) tbl)
        = filter (\<lambda>x. progress_key x \<noteq> progress_key r) tbl"
    by (induction tbl) auto
  then show ?thesis by (simp add: upsert_row_def)
qed

lemma upsert_row_twice:
  assumes k: "progress_key r2 = progress_key r1"
  shows "upsert_row (upsert_row tbl r1) r2 = upsert_row tbl r2"
proof (cases "progress_key r1 \<in> set (map progress_key tbl)")
  case True
  have m: "map (\<lambda>x. if progress_key x = progress_key r1 then r2 else x)
          (map (\<lambda>x. if progress_key x = progress_key r1 then r1 else x) tbl)
        = map (\<lambda>x. if progress_key x = progress_key r1 then r2 else x) tbl"
    using k by (induction tbl) auto
  have "upsert_row tbl r1 = map (\<lambda>x. if progress_key x = progress_key r1 then r1 else x) tbl"
    using True by (simp add: upsert_row_def del: set_map)
  moreover have "progress_key r2 \<in> set (map progress_key (upsert_row tbl r1))"
    unfolding upsert_row_keys using k by simp
  ultimately have "upsert_row (upsert_row tbl r1) r2
      = map (\<lambda>x. if progress_key x = progress_key r1 then r2 else x)
          (map (\<lambda>x. if progress_key x = progress_key r1 then r1 else x) tbl)"
    using k by (simp add: upsert_row_def del: set_map map_map)
  also have "\<dots> = upsert_row tbl r2"
    using True k m by (simp add: upsert_row_def del: set_map map_map)
  finally show ?thesis .
next
  case False
  from False have "map (\<lambda>x. if progress_key x = progress_key r1 then r2 else x) tbl = tbl"
    by (induction tbl) auto
  with False k show ?thesis
    by (simp add: upsert_row_def)
qed


lemma upsert_row_untimed:
  "progress_key r2 = progress_key r1 \<Longrightarrow> untimed r2 = untimed r1 \<Longrightarrow>
   map untimed (upsert_row tbl r2) = map untimed (upsert_row tbl r1)"
  by (simp add: upsert_row_def)

lemma update_progress_Accepts:
  "supabase st = Some db \<Longrightarrow>
   snd (update_progress st now Accepts d user)
     = st\<lparr>supabase := Some (db\<lparr>roadmap_progress :=
                                upsert_row (roadmap_progress db) (update_row now d user)\<rparr>)\<rparr>"
  by (simp add: update_progress_def)

lemma update_progress_examples:
  "snd (update_progress st_on 1 Accepts upd0 alice)
     = st_on\<lparr>supabase := Some (empty_store\<lparr>roadmap_progress := [update_row 1 upd0 alice]\<rparr>)\<rparr>"
  "snd (update_progress (snd (update_progress st_on 1 Accepts upd0 alice)) 2 Accepts upd0 alice)
     = st_on\<lparr>supabase := Some (empty_store\<lparr>roadmap_progress := [update_row 2 upd0 alice]\<rparr>)\<rparr>"
  "snd (update_progress (snd (update_progress st_on 1 Accepts upd0 alice)) 2 Accepts upd1 alice)
     = st_on\<lparr>supabase := Some (empty_store\<lparr>roadmap_progress := [update_row 2 upd1 alice]\<rparr>)\<rparr>"
  by (simp_all add: update_progress_def st_on_def empty_store_def upsert_row_def progress_key_def
      update_row_def upd0_def upd1_def)

text \<open>
  Claim C5, as stated: a repeat of the same submission leaves the state unchanged. The
  handler sends \<open>updated_at = now()\<close> with every submission, so the same valid submission
  made at time 1 and again at time 2 leaves a state different from the one after the
  first.
\<close>

theorem update_progress_repeat_changes_timestamp:
  "ProgressUpdate_ok upd0 \<and>
   snd (update_progress (snd (update_progress st_on 1 Accepts upd0 alice)) 2 Accepts upd0 alice)
     \<noteq> snd (update_progress st_on 1 Accepts upd0 alice)"
proof -
  have twice: "snd (update_progress (snd (update_progress st_on 1 Accepts upd0 alice)) 2 Accepts
                 upd0 alice)
      = st_on\<lparr>supabase := Some (empty_store\<lparr>roadmap_progress := [update_row 2 upd0 alice]\<rparr>)\<rparr>"
    by (rule update_progress_examples(2))
  have once: "snd (update_progress st_on 1 Accepts upd0 alice)
      = st_on\<lparr>supabase := Some (empty_store\<lparr>roadmap_progress := [update_row 1 upd0 alice]\<rparr>)\<rparr>"
    by (rule update_progress_examples(1))
  have "st_on\<lparr>supabase := Some (empty_store\<lparr>roadmap_progress := [update_row 2 upd0 alice]\<rparr>)\<rparr>
      \<noteq> st_on\<lparr>supabase := Some (empty_store\<lparr>roadmap_progress := [update_row 1 upd0 alice]\<rparr>)\<rparr>"
    by (simp add: st_on_def empty_store_def update_row_def)
  then have "snd (update_progress (snd (update_progress st_on 1 Accepts upd0 alice)) 2 Accepts
                upd0 alice)
      \<noteq> snd (update_progress st_on 1 Accepts upd0 alice)"
    unfolding twice unfolding once by simp
  moreover have "ProgressUpdate_ok upd0"
    by (simp add: ProgressUpdate_ok_def upd0_def)
  ultimately show ?thesis by simp
qed

text \<open>
  Claim C5, amended: for every state whose progress rows have distinct conflict keys, two
  accepted updates for the same (user id, analysis id, day label, duration type) leave
  exactly one row for that key, holding the later submission's completion flag and skill
  score and the time of the later submission; every row of another key and every analysis
  is as before. A repeat of the same submission leaves the state unchanged except for that
  row's \<open>updated_at\<close> (and unchanged altogether when made at the same time).
\<close>

theorem update_progress_last_write_wins:
  assumes db: "supabase st = Some db" and dist: "keys_distinct db"
    and same: "analysis_id d2 = analysis_id d1" "day_label d2 = day_label d1"
      "duration_type d2 = duration_type d1"
  shows "\<exists>db1 db2.
     supabase (snd (update_progress st t1 Accepts d1 user)) = Some db1 \<and>
     supabase (snd (update_progress (snd (update_progress st t1 Accepts d1 user)) t2 Accepts d2 user))
       = Some db2 \<and>
     filter (\<lambda>r. progress_key r = progress_key (update_row t2 d2 user)) (roadmap_progress db2)
       = [update_row t2 d2 user] \<and>
     filter (\<lambda>r. progress_key r \<noteq> progress_key (update_row t2 d2 user)) (roadmap_progress db2)
       = filter (\<lambda>r. progress_key r \<noteq> progress_key (update_row t2 d2 user)) (roadmap_progress db) \<and>
     analyses db2 = analyses db \<and>
     (d2 = d1 \<longrightarrow> map untimed (roadmap_progress db2) = map untimed (roadmap_progress db1)) \<and>
     (d2 = d1 \<and> t2 = t1 \<longrightarrow> db2 = db1)"
proof -
  let ?r1 = "update_row t1 d1 user" and ?r2 = "update_row t2 d2 user"
  let ?tbl = "roadmap_progress db"
  let ?db1 = "db\<lparr>roadmap_progress := upsert_row ?tbl ?r1\<rparr>"
  let ?db2 = "?db1\<lparr>roadmap_progress := upsert_row (roadmap_progress ?db1) ?r2\<rparr>"
  have k: "progress_key ?r2 = progress_key ?r1"
    using same by (simp add: progress_key_def update_row_def)
  have s1: "snd (update_progress st t1 Accepts d1 user) = st\<lparr>supabase := Some ?db1\<rparr>"
    using db by (rule update_progress_Accepts)
  have s2: "snd (update_progress (st\<lparr>supabase := Some ?db1\<rparr>) t2 Accepts d2 user)
      = st\<lparr>supabase := Some ?db2\<rparr>"
    using update_progress_Accepts [of "st\<lparr>supabase := Some ?db1\<rparr>" ?db1 t2 d2 user] by simp
  have tw: "roadmap_progress ?db2 = upsert_row ?tbl ?r2"
    using upsert_row_twice [OF k, of ?tbl] by simp
  have f1: "filter (\<lambda>r. progress_key r = progress_key ?r2) (roadmap_progress ?db2) = [?r2]"
    unfolding tw using dist by (simp only: keys_distinct_def upsert_row_filter_eq)
  have f2: "filter (\<lambda>r. progress_key r \<noteq> progress_key ?r2) (roadmap_progress ?db2)
      = filter (\<lambda>r. progress_key r \<noteq> progress_key ?r2) ?tbl"
    unfolding tw by (rule upsert_row_filter_neq)
  have u: "d2 = d1 \<longrightarrow> map untimed (roadmap_progress ?db2) = map untimed (roadmap_progress ?db1)"
  proof
    assume e: "d2 = d1"
    have "untimed ?r2 = untimed ?r1" using e by (simp add: untimed_def update_row_def)
    from upsert_row_untimed [OF k this, of ?tbl] show
      "map untimed (roadmap_progress ?db2) = map untimed (roadmap_progress ?db1)"
      unfolding tw by simp
  qed
  have e: "d2 = d1 \<and> t2 = t1 \<longrightarrow> ?db2 = ?db1"
    using tw by auto
  show ?thesis
    unfolding s1 s2 using f1 f2 u e by (intro exI [of _ ?db1] exI [of _ ?db2]) simp
qed


theorem update_progress_last_write_wins_witness:
  "supabase st_on = Some empty_store \<and> keys_distinct empty_store \<and>
   analysis_id upd1 = analysis_id upd0 \<and> day_label upd1 = day_label upd0 \<and>
   duration_type upd1 = duration_type upd0 \<and> skill_score upd1 \<noteq> skill_score upd0 \<and>
   (\<exists>db2.
      supabase (snd (update_progress (snd (update_progress st_on 1 Accepts upd0 alice)) 2 Accepts
                  upd1 alice)) = Some db2 \<and>
      filter (\<lambda>r. progress_key r = progress_key (update_row 2 upd1 alice)) (roadmap_progress db2)
        = [update_row 2 upd1 alice] \<and>
      p_skill_score (update_row 2 upd1 alice) = 4)"
proof -
  have h: "supabase st_on = Some empty_store" "keys_distinct empty_store"
    "analysis_id upd1 = analysis_id upd0" "day_label upd1 = day_label upd0"
    "duration_type upd1 = duration_type upd0"
    by (simp_all add: st_on_def empty_store_def keys_distinct_def upd0_def upd1_def)
  have s: "skill_score upd1 \<noteq> skill_score upd0" "p_skill_score (update_row 2 upd1 alice) = 4"
    by (simp_all add: upd0_def upd1_def update_row_def)
  from update_progress_last_write_wins [OF h, of 1 alice 2] h s show ?thesis by auto
qed

subsection \<open>The rows that \<open>analyze\<close> seeds\<close>

lemma dec_nat_0: "dec_nat 0 = ''0''"
  by (simp add: dec_nat.simps)

lemma map_of_dict_set: "map_of (dict_set k v kvs) = (map_of kvs)(k \<mapsto> v)"
  by (induction kvs) (auto simp add: fun_eq_iff)

lemma keys_dict_set: "set (map fst (dict_set k v kvs)) = insert k (set (map fst kvs))"
proof -
  have "dom (map_of (dict_set k v kvs)) = insert k (dom (map_of kvs))"
    by (simp add: map_of_dict_set)
  then show ?thesis by (simp add: dom_map_of_conv_image_fst)
qed

lemma py_get_dict_set:
  "k' \<noteq> k \<Longrightarrow> py_get (JObj (dict_set k v kvs)) k' d = py_get (JObj kvs) k' d"
  by (simp add: py_get_def map_of_dict_set)

lemma progress_rows_dict_set:
  "progress_rows bi aid u (JObj (dict_set ''id'' v kvs)) = progress_rows bi aid u (JObj kvs)"
  by (simp add: progress_rows_def py_get_dict_set)

lemma task_rows_props:
  "task_rows bi aid u d ts = Inr rows \<Longrightarrow>
   length rows = length ts \<and>
   (\<forall>r \<in> set rows. p_user_id r = u \<and> p_analysis_id r = aid \<and> p_duration_type r = d \<and>
      \<not> p_is_completed r \<and> p_skill_score r = 5 \<and> p_updated_at r = None)"
  by (induction ts arbitrary: rows) (auto split: sum.splits)

lemma plan_rows_props:
  "plan_rows bi aid u plans = Inr rows \<Longrightarrow>
   length rows = sum_list (map (\<lambda>kv. case py_iter (snd kv) of Inl e \<Rightarrow> 0 | Inr ts \<Rightarrow> length ts) plans) \<and>
   (\<forall>r \<in> set rows. p_user_id r = u \<and> p_analysis_id r = aid \<and>
      \<not> p_is_completed r \<and> p_skill_score r = 5 \<and> p_updated_at r = None)"
proof (induction plans arbitrary: rows)
  case Nil
  then show ?case by simp
next
  case (Cons kv plans)
  obtain d tasks where kv: "kv = (d, tasks)" by (cases kv)
  from Cons.prems kv obtain ts rs rest where
    it: "py_iter tasks = Inr ts" and tr: "task_rows bi aid u d ts = Inr rs"
    and pr: "plan_rows bi aid u plans = Inr rest" and rows: "rows = rs @ rest"
    by (auto split: sum.splits)
  from task_rows_props [OF tr] Cons.IH [OF pr] it rows kv show ?case by auto
qed

lemma progress_rows_props:
  "progress_rows bi aid u res = Inr rows \<Longrightarrow>
   length rows = task_count res \<and>
   (\<forall>r \<in> set rows. p_user_id r = u \<and> p_analysis_id r = aid \<and>
      \<not> p_is_completed r \<and> p_skill_score r = 5 \<and> p_updated_at r = None)"
  unfolding progress_rows_def task_count_def
  by (auto split: sum.splits dest: plan_rows_props)

subsection \<open>The bulk upsert\<close>

lemma upsert_rows_keys:
  "set (map progress_key (upsert_rows tbl rows))
     = set (map progress_key tbl) \<union> set (map progress_key rows)"
  unfolding upsert_rows_def
proof (induction rows arbitrary: tbl)
  case Nil
  then show ?case by simp
next
  case (Cons r rows)
  have "set (map progress_key (foldl upsert_row (upsert_row tbl r) rows))
      = set (map progress_key (upsert_row tbl r)) \<union> set (map progress_key rows)"
    by (rule Cons.IH)
  then show ?case unfolding upsert_row_keys by auto
qed

lemma upsert_rows_distinct:
  "distinct (map progress_key tbl) \<Longrightarrow> distinct (map progress_key (upsert_rows tbl rows))"
  unfolding upsert_rows_def
  by (induction rows arbitrary: tbl) (simp_all add: upsert_row_distinct)

lemma upsert_row_subset: "set (upsert_row tbl r) \<subseteq> insert r (set tbl)"
  by (auto simp add: upsert_row_def)

lemma upsert_rows_subset: "set (upsert_rows tbl rows) \<subseteq> set tbl \<union> set rows"
  unfolding upsert_rows_def
proof (induction rows arbitrary: tbl)
  case Nil
  then show ?case by simp
next
  case (Cons r rows)
  have "set (foldl upsert_row (upsert_row tbl r) rows) \<subseteq> set (upsert_row tbl r) \<union> set rows"
    by (rule Cons.IH)
  with upsert_row_subset [of tbl r] show ?case by auto
qed

lemma upsert_rows_append:
  "distinct (map progress_key rows) \<Longrightarrow>
   set (map progress_key rows) \<inter> set (map progress_key tbl) = {} \<Longrightarrow>
   upsert_rows tbl rows = tbl @ rows"
  unfolding upsert_rows_def
proof (induction rows arbitrary: tbl)
  case Nil
  then show ?case by simp
next
  case (Cons r rows)
  from Cons.prems have fresh: "progress_key r \<notin> set (map progress_key tbl)" by auto
  then have u: "upsert_row tbl r = tbl @ [r]" by (simp add: upsert_row_def del: set_map)
  from Cons.prems have "distinct (map progress_key rows)"
    and "set (map progress_key rows) \<inter> set (map progress_key (tbl @ [r])) = {}"
    by auto
  then have "foldl upsert_row (tbl @ [r]) rows = (tbl @ [r]) @ rows" by (rule Cons.IH)
  with u show ?case by simp
qed

lemma distinct_key_filter_one:
  "distinct (map f xs) \<Longrightarrow> k \<in> set (map f xs) \<Longrightarrow> length (filter (\<lambda>x. f x = k) xs) = 1"
proof (induction xs)
  case Nil
  then show ?case by simp
next
  case (Cons a xs)
  show ?case
  proof (cases "f a = k")
    case True
    with Cons.prems have "k \<notin> set (map f xs)" by auto
    then have "filter (\<lambda>x. f x = k) xs = []" by (induction xs) auto
    with True show ?thesis by simp
  next
    case False
    with Cons show ?thesis by auto
  qed
qed

subsection \<open>The steps of \<open>analyze\<close> with a persistence client\<close>

lemma and_then_Inr: "and_then m f = Inr y \<Longrightarrow> \<exists>x. m = Inr x \<and> f x = Inr y"
  by (cases m) (simp_all add: and_then_def)

lemma py_get_Inr: "py_get res k d = Inr v \<Longrightarrow> \<exists>kvs. res = JObj kvs"
  by (cases res) (simp_all add: py_get_def)

lemma analysis_insert_JObj:
  "analysis_insert bi u role res = Inr payload \<Longrightarrow> \<exists>kvs. res = JObj kvs"
  unfolding analysis_insert_def
  by (drule and_then_Inr) (auto dest: py_get_Inr)

lemma insert_analysis_simps:
  "fst (insert_analysis now payload db)
     = \<lparr>a_id = dec_nat (next_id db), a_created_at = now, a_fields = payload\<rparr>"
  "analyses (snd (insert_analysis now payload db))
     = analyses db @ [\<lparr>a_id = dec_nat (next_id db), a_created_at = now, a_fields = payload\<rparr>]"
  "roadmap_progress (snd (insert_analysis now payload db)) = roadmap_progress db"
  by (simp_all add: insert_analysis_def Let_def)


lemma persist_analysis_unfold:
  assumes "analysis_insert bi (uid user) (req_target_role req) (JObj kvs) = Inr payload"
  shows "persist_analysis bi now Accepts ups db req user (JObj kvs) =
     (case progress_rows bi (dec_nat (next_id db)) (uid user) (JObj kvs) of
        Inl e \<Rightarrow> (Inl (Exc e), snd (insert_analysis now payload db))
      | Inr rows \<Rightarrow>
          if rows = [] then
            (Inr (JObj (dict_set ''id'' (JStr (dec_nat (next_id db))) kvs)),
             snd (insert_analysis now payload db))
          else
            (case ups of
               Accepts \<Rightarrow>
                 (Inr (JObj (dict_set ''id'' (JStr (dec_nat (next_id db))) kvs)),
                  (snd (insert_analysis now payload db))
                    \<lparr>roadmap_progress := upsert_rows (roadmap_progress db) rows\<rparr>)
             | Rejects \<Rightarrow> (Inl (Exc APIError), snd (insert_analysis now payload db))
             | NoRows \<Rightarrow>
                 (Inr (JObj (dict_set ''id'' (JStr (dec_nat (next_id db))) kvs)),
                  snd (insert_analysis now payload db))))"
  using assms
  by (simp add: persist_analysis_def insert_analysis_def Let_def py_setitem_def
      progress_rows_dict_set split: sum.split db_reply.split)

lemma persist_analysis_Inr:
  assumes "persist_analysis bi now ins ups db req user res = (Inr result, db')"
  shows "\<exists>kvs payload rows.
     res = JObj kvs \<and> ins = Accepts \<and>
     analysis_insert bi (uid user) (req_target_role req) res = Inr payload \<and>
     result = JObj (dict_set ''id'' (JStr (dec_nat (next_id db))) kvs) \<and>
     progress_rows bi (dec_nat (next_id db)) (uid user) res = Inr rows \<and>
     (rows = [] \<or> ups \<noteq> Rejects) \<and>
     db' = (if ups = Accepts
            then (snd (insert_analysis now payload db))
                   \<lparr>roadmap_progress := upsert_rows (roadmap_progress db) rows\<rparr>
            else snd (insert_analysis now payload db))"
proof -
  from assms obtain payload where
    p: "analysis_insert bi (uid user) (req_target_role req) res = Inr payload"
    by (cases "analysis_insert bi (uid user) (req_target_role req) res")
      (simp_all add: persist_analysis_def)
  then obtain kvs where kvs: "res = JObj kvs" by (auto dest: analysis_insert_JObj)
  from assms p have ins: "ins = Accepts"
    by (cases ins) (simp_all add: persist_analysis_def)
  let ?aid = "dec_nat (next_id db)"
  let ?db1 = "snd (insert_analysis now payload db)"
  note u = persist_analysis_unfold [OF p [unfolded kvs], of now ups db]
  from assms ins kvs u obtain rows where
    rows: "progress_rows bi ?aid (uid user) (JObj kvs) = Inr rows"
    by (cases "progress_rows bi ?aid (uid user) (JObj kvs)") simp_all
  have last: "result = JObj (dict_set ''id'' (JStr ?aid) kvs) \<and>
     (rows = [] \<or> ups \<noteq> Rejects) \<and>
     db' = (if ups = Accepts
            then ?db1\<lparr>roadmap_progress := upsert_rows (roadmap_progress db) rows\<rparr>
            else ?db1)"
  proof (cases "rows = []")
    case True
    have "?db1\<lparr>roadmap_progress := upsert_rows (roadmap_progress db) []\<rparr> = ?db1"
      by (simp add: upsert_rows_def insert_analysis_def Let_def)
    with True assms ins kvs u rows show ?thesis by simp
  next
    case False
    with assms ins kvs u rows show ?thesis by (cases ups) simp_all
  qed
  with kvs ins p rows show ?thesis by blast
qed


lemma get_client_Inr: "get_client st = Inr st1 \<Longrightarrow> st1 = st\<lparr>client := True\<rparr>"
  by (auto simp add: get_client_def split: if_splits option.splits)

lemma analyze_resume_state:
  "analyze_resume st gen = (r, st1) \<Longrightarrow> supabase st1 = supabase st"
  by (auto simp add: analyze_resume_def split: sum.splits gen_outcome.splits
      dest: get_client_Inr)

lemma analyze_resume_Parsed:
  "analyze_resume st (Parsed res) = (Inr j, st1) \<Longrightarrow> j = res \<and> get_client st = Inr st1"
  by (auto simp add: analyze_resume_def split: sum.splits)

lemma analyze_try_Inr_store:
  assumes db: "supabase st = Some db"
    and ok: "analyze_try bi st now ins ups (Parsed res) req user = (Inr result, st')"
  shows "\<exists>db' st1. get_client st = Inr st1 \<and> st' = st1\<lparr>supabase := Some db'\<rparr> \<and>
     py_in ''error'' res = Inr False \<and>
     persist_analysis bi now ins ups db req user res = (Inr result, db')"
proof -
  obtain r st1 where ar: "analyze_resume st (Parsed res) = (r, st1)"
    by (cases "analyze_resume st (Parsed res)")
  from analyze_resume_state [OF ar] db have db1: "supabase st1 = Some db" by simp
  from ok ar obtain j where r: "r = Inr j"
    by (cases r) (simp_all add: analyze_try_def)
  from analyze_resume_Parsed [OF ar [unfolded r]] have j: "j = res"
    and gc: "get_client st = Inr st1" by simp_all
  from ok ar r j obtain c where c: "py_in ''error'' res = Inr c"
    by (cases "py_in ''error'' res") (simp_all add: analyze_try_def)
  from ok ar r j c have nc: "\<not> c"
    by (cases c) (simp_all add: analyze_try_def)
  obtain q db' where pa: "persist_analysis bi now ins ups db req user res = (q, db')"
    by (cases "persist_analysis bi now ins ups db req user res")
  from ok ar r j c nc db1 pa have "q = Inr result" "st' = st1\<lparr>supabase := Some db'\<rparr>"
    by (simp_all add: analyze_try_def)
  with gc c nc pa show ?thesis by auto
qed

lemma analyze_Ok:
  "analyze bi st now ins ups gen req user = (Ok b, st') \<Longrightarrow>
   \<exists>result. b = BJson result \<and> analyze_try bi st now ins ups gen req user = (Inr result, st')"
  by (auto simp add: analyze_def split: prod.splits sum.splits raised.splits)

lemma analyze_snd: "snd (analyze bi st now ins ups gen req user) = snd (analyze_try bi st now ins ups gen req user)"
  by (auto simp add: analyze_def split: prod.splits sum.splits raised.splits)

lemma analyze_try_store:
  assumes db: "supabase st = Some db"
  shows "\<exists>db'. supabase (snd (analyze_try bi st now ins ups gen req user)) = Some db' \<and>
     (db' = db \<or> (\<exists>res. db' = snd (persist_analysis bi now ins ups db req user res)))"
proof -
  obtain r st1 where ar: "analyze_resume st gen = (r, st1)"
    by (cases "analyze_resume st gen")
  from analyze_resume_state [OF ar] db have db1: "supabase st1 = Some db" by simp
  show ?thesis
  proof (cases r)
    case (Inl e)
    with ar db1 show ?thesis by (simp add: analyze_try_def)
  next
    case (Inr res)
    show ?thesis
    proof (cases "py_in ''error'' res")
      case (Inl e)
      with ar db1 Inr show ?thesis by (simp add: analyze_try_def)
    next
      case c: (Inr c)
      show ?thesis
      proof (cases c)
        case True
        with ar db1 Inr c show ?thesis by (simp add: analyze_try_def)
      next
        case False
        obtain q db' where pa: "persist_analysis bi now ins ups db req user res = (q, db')"
          by (cases "persist_analysis bi now ins ups db req user res")
        with ar db1 Inr c False
        have "supabase (snd (analyze_try bi st now ins ups gen req user)) = Some db'"
          by (simp add: analyze_try_def)
        moreover from pa have "db' = snd (persist_analysis bi now ins ups db req user res)"
          by simp
        ultimately show ?thesis by blast
      qed
    qed
  qed
qed

end
